theory Spec2Isabelle
  imports Complex_Main
begin

section \<open>JavaScript values\<close>

text \<open>
  The renderer's HTTP helper (class \<open>Http\<close> with the hooks \<open>useHttp\<close> and \<open>useApi\<close>)
  works on untyped run-time values: the body of a response is whatever the transport
  parsed, and the type guard \<open>isResponseObject\<close> inspects it with \<open>typeof\<close>.
  A number is an IEEE double: a finite value (a rational here, which covers every finite
  double), \<open>NaN\<close> or an infinity. An object is its list of own properties, read with
  \<open>map_of\<close>. A \<open>CancelToken\<close> object is named by the address of the source it belongs to.
\<close>

datatype jsnum = Finite rat | NaN | PosInfinity | NegInfinity

datatype jsval =
    JUndefined
  | JNull
  | JBool bool
  | JNum jsnum
  | JStr string
  | JArr "jsval list"
  | JObj "(string \<times> jsval) list"
  | JCancelToken nat

datatype jstype = TyUndefined | TyObject | TyBoolean | TyNumber | TyString

text \<open>\<open>typeof\<close>: \<open>null\<close>, arrays and every object answer \<open>"object"\<close>.\<close>

fun typeof :: "jsval \<Rightarrow> jstype" where
  "typeof JUndefined = TyUndefined"
| "typeof JNull = TyObject"
| "typeof (JBool b) = TyBoolean"
| "typeof (JNum n) = TyNumber"
| "typeof (JStr s) = TyString"
| "typeof (JArr xs) = TyObject"
| "typeof (JObj kvs) = TyObject"
| "typeof (JCancelToken a) = TyObject"

text \<open>Truthiness, as the conditional operator and \<open>||\<close> test it.\<close>

fun truthy :: "jsval \<Rightarrow> bool" where
  "truthy JUndefined = False"
| "truthy JNull = False"
| "truthy (JBool b) = b"
| "truthy (JNum n) = (n \<noteq> NaN \<and> n \<noteq> Finite 0)"
| "truthy (JStr s) = (s \<noteq> [])"
| "truthy (JArr xs) = True"
| "truthy (JObj kvs) = True"
| "truthy (JCancelToken a) = True"

text \<open>
  Strict equality \<open>===\<close> on primitive values; \<open>NaN\<close> equals nothing. Objects compare by
  identity, which the value model does not carry; the source compares a number with
  \<open>-1\<close> only.
\<close>

fun strict_equals :: "jsval \<Rightarrow> jsval \<Rightarrow> bool" where
  "strict_equals JUndefined JUndefined = True"
| "strict_equals JNull JNull = True"
| "strict_equals (JBool a) (JBool b) = (a = b)"
| "strict_equals (JNum a) (JNum b) = (a \<noteq> NaN \<and> a = b)"
| "strict_equals (JStr a) (JStr b) = (a = b)"
| "strict_equals (JCancelToken a) (JCancelToken b) = (a = b)"
| "strict_equals x y = False"

section \<open>Values a promise rejects with\<close>

text \<open>
  \<open>AxiosResponse\<close>, reduced to the fields the helper reads or that an error carries.
\<close>

record axios_response =
  status :: nat
  statusText :: string
  data :: jsval

text \<open>
  Modelled from the spec: the transport library (axios) is not part of the repository.
  Its failures are told apart by \<open>axios.isCancel\<close> and \<open>axios.isAxiosError\<close>
  ("a distinguishable cancellation flag and/or status text"): a \<open>Cancel\<close> object with its
  optional message, an axios error with its message and optional response, or anything
  else. \<open>HttpError\<close> is the repository's own error class (a message and an optional
  numeric code, \<open>JUndefined\<close> when the constructor gets none); \<open>TypeError\<close> is what the
  engine throws on a property read of \<open>null\<close> or \<open>undefined\<close>.
\<close>

datatype thrown =
    Cancel "string option"
  | AxiosError string "axios_response option"
  | HttpError (message: string) (code: jsval)
  | TypeError
  | Thrown jsval

fun isCancel :: "thrown \<Rightarrow> bool" where
  "isCancel (Cancel m) = True"
| "isCancel e = False"

fun isAxiosError :: "thrown \<Rightarrow> bool" where
  "isAxiosError (AxiosError m r) = True"
| "isAxiosError e = False"

text \<open>
  Property read \<open>obj.key\<close>, for the keys \<open>result\<close> and \<open>data\<close> the source reads (neither
  is a built-in property of a string, an array or a number): it throws on \<open>null\<close> and
  \<open>undefined\<close>, and gives \<open>undefined\<close> when the property is missing.
\<close>

fun get_prop :: "jsval \<Rightarrow> string \<Rightarrow> thrown + jsval" where
  "get_prop JUndefined k = Inl TypeError"
| "get_prop JNull k = Inl TypeError"
| "get_prop (JObj kvs) k = Inr (case map_of kvs k of None \<Rightarrow> JUndefined | Some v \<Rightarrow> v)"
| "get_prop v k = Inr JUndefined"

text \<open>
  The type guard: \<open>typeof obj === "object" && typeof obj.result === "number"\<close>. The
  conjunction short-cuts, so the property is read only from a value whose \<open>typeof\<close> is
  \<open>"object"\<close>; the read may throw.
\<close>

definition isResponseObject :: "jsval \<Rightarrow> thrown + bool" where
  "isResponseObject obj =
     (if typeof obj = TyObject then
        (case get_prop obj ''result'' of
           Inl e \<Rightarrow> Inl e
         | Inr r \<Rightarrow> Inr (typeof r = TyNumber))
      else Inr False)"

text \<open>
  The two fixed messages of the source are Chinese text; a \<open>string\<close> holds their UTF-8
  bytes.
\<close>

definition request_error_message :: string where
  "request_error_message =
     [CHR 0xE8, CHR 0xAF, CHR 0xB7, CHR 0xE6, CHR 0xB1, CHR 0x82,
      CHR 0xE9, CHR 0x94, CHR 0x99, CHR 0xE8, CHR 0xAF, CHR 0xAF]"

definition cancelled_message :: string where
  "cancelled_message =
     [CHR 0xE8, CHR 0xAF, CHR 0xB7, CHR 0xE6, CHR 0xB1, CHR 0x82, CHR 0xE8, CHR 0xA2,
      CHR 0xAB, CHR 0xE5, CHR 0x8F, CHR 0x96, CHR 0xE6, CHR 0xB6, CHR 0x88]"

section \<open>The client and its registry\<close>

text \<open>
  \<open>requestMap\<close> is a JavaScript \<open>Map\<close>: it keeps its entries in insertion order, \<open>set\<close>
  on a present key replaces the value in place, \<open>delete\<close> removes the entry, and
  \<open>forEach\<close> visits the entries in order. A \<open>CancelTokenSource\<close> is named by its address.
\<close>

fun Map_set :: "nat \<Rightarrow> 'v \<Rightarrow> (nat \<times> 'v) list \<Rightarrow> (nat \<times> 'v) list" where
  "Map_set k v [] = [(k, v)]"
| "Map_set k v ((k', v') # m) = (if k' = k then (k, v) # m else (k', v') # Map_set k v m)"

definition Map_delete :: "nat \<Rightarrow> (nat \<times> 'v) list \<Rightarrow> (nat \<times> 'v) list" where
  "Map_delete k m = filter (\<lambda>(k', v). k' \<noteq> k) m"

definition Map_forEach :: "('v \<Rightarrow> 's \<Rightarrow> 's) \<Rightarrow> (nat \<times> 'v) list \<Rightarrow> 's \<Rightarrow> 's" where
  "Map_forEach f m = fold (\<lambda>(k, v). f v) m"

record http =
  currentId :: nat
  requestMap :: "(nat \<times> nat) list"

definition new_Http :: http where
  "new_Http = \<lparr>currentId = 0, requestMap = []\<rparr>"

text \<open>
  \<open>this.currentId++\<close> on a number: every integer up to \<open>2^53\<close> is a double and the sum is
  exact below it; at \<open>2^53\<close> the sum \<open>2^53 + 1\<close> is not a double and rounds (ties to even)
  back to \<open>2^53\<close>. The counter is private and starts at 0, so these are all the values
  it takes.
\<close>

definition js_increment :: "nat \<Rightarrow> nat" where
  "js_increment n = (if n < 2 ^ 53 then n + 1 else n)"

text \<open>
  The world a client runs in: the client object, the address of the next
  \<open>CancelTokenSource\<close> that \<open>CancelToken.source()\<close> allocates, and the trace of the calls
  \<open>source.cancel(message)\<close> made so far.
\<close>

record world =
  client :: http
  next_source :: nat
  cancel_calls :: "(nat \<times> string option) list"

definition new_world :: world where
  "new_world = \<lparr>client = new_Http, next_source = 0, cancel_calls = []\<rparr>"

text \<open>
  Modelled from the spec: \<open>source.cancel(message)\<close> belongs to the transport library;
  the model records the call ("signals cancellation to the underlying transport").
\<close>

definition source_cancel :: "string option \<Rightarrow> nat \<Rightarrow> world \<Rightarrow> world" where
  "source_cancel msg source w = w\<lparr>cancel_calls := cancel_calls w @ [(source, msg)]\<rparr>"

definition dispose :: "string option \<Rightarrow> world \<Rightarrow> world" where
  "dispose msg w = Map_forEach (\<lambda>source. source_cancel msg source) (requestMap (client w)) w"

section \<open>request\<close>

text \<open>
  The caller's \<open>options\<close> object: its own data properties and its integrity level. An
  object literal is extensible; \<open>Object.preventExtensions\<close> and \<open>Object.seal\<close> leave the
  own properties writable and allow no new one (\<open>Sealed\<close>); \<open>Object.freeze\<close> makes
  every own property read-only as well (\<open>Frozen\<close>). The source is an ES module, so its
  code is strict: an assignment \<open>obj.k = v\<close> that cannot be carried out throws a
  \<open>TypeError\<close>. Accessor properties, proxies and attributes set property by property
  with \<open>Object.defineProperty\<close> are not modelled.
\<close>

datatype integrity = Extensible | Sealed | Frozen

record js_object =
  props :: "string \<rightharpoonup> jsval"
  integrity :: integrity

definition object_literal :: "(string \<rightharpoonup> jsval) \<Rightarrow> js_object" where
  "object_literal ps = \<lparr>props = ps, integrity = Extensible\<rparr>"

text \<open>The property read \<open>obj.k\<close>: \<open>undefined\<close> when the object has no such property.\<close>

definition own_prop :: "js_object \<Rightarrow> string \<Rightarrow> jsval" where
  "own_prop obj k = (case props obj k of None \<Rightarrow> JUndefined | Some v \<Rightarrow> v)"

text \<open>The assignment \<open>obj.k = v\<close> in strict code.\<close>

definition assignable :: "js_object \<Rightarrow> string \<Rightarrow> bool" where
  "assignable obj k =
     (case integrity obj of
        Extensible \<Rightarrow> True
      | Sealed \<Rightarrow> props obj k \<noteq> None
      | Frozen \<Rightarrow> False)"

definition set_prop :: "js_object \<Rightarrow> string \<Rightarrow> jsval \<Rightarrow> thrown + js_object" where
  "set_prop obj k v =
     (if assignable obj k then Inr (obj\<lparr>props := (props obj)(k \<mapsto> v)\<rparr>) else Inl TypeError)"

text \<open>
  The synchronous part of \<open>request\<close> (the statements up to the transport call). The
  call takes the next identifier (\<open>requestID\<close>, which the callbacks close over), and
  either throws or returns the pending request: the configuration handed to the
  transport, and the caller's \<open>options\<close> object as the assignment to
  \<open>options.cancelToken\<close> leaves it. In that assignment the right-hand side is evaluated
  first, so the counter has moved and a new source is registered before the assignment
  can throw; the client keeps both effects when it does. A configuration object is a
  map from property names to values; the spread \<open>{a, b, c, ...options}\<close> is \<open>++\<close>.
\<close>

record pending =
  config :: "string \<rightharpoonup> jsval"
  options_after :: js_object

record request_call =
  requestID :: nat
  returned :: "thrown + pending"

definition request_defaults :: "string \<Rightarrow> string \<Rightarrow> (string \<rightharpoonup> jsval)" where
  "request_defaults meth url =
     [''method'' \<mapsto> JStr meth, ''url'' \<mapsto> JStr url, ''timeout'' \<mapsto> JNum (Finite (1000 * 60))]"

definition request :: "string \<Rightarrow> string \<Rightarrow> js_object \<Rightarrow> world \<Rightarrow> request_call \<times> world" where
  "request meth url options w =
     (let h = (client w)\<lparr>currentId := js_increment (currentId (client w))\<rparr>;
          rid = currentId h;
          (token, w') =
            (if truthy (own_prop options ''cancelToken'')
             then (own_prop options ''cancelToken'', w\<lparr>client := h\<rparr>)
             else (JCancelToken (next_source w),
                   w\<lparr>client := h\<lparr>requestMap := Map_set rid (next_source w) (requestMap h)\<rparr>,
                     next_source := Suc (next_source w)\<rparr>))
      in (\<lparr>requestID = rid,
           returned =
             (case set_prop options ''cancelToken'' token of
                Inl e \<Rightarrow> Inl e
              | Inr options' \<Rightarrow>
                  Inr \<lparr>config = request_defaults meth url ++ props options',
                       options_after = options'\<rparr>)\<rparr>, w'))"

text \<open>The \<open>then\<close> callback: what it returns or throws, and the client it leaves.\<close>

definition request_then :: "nat \<Rightarrow> axios_response \<Rightarrow> http \<Rightarrow> (thrown + jsval) \<times> http" where
  "request_then rid resp h =
     (let h' = h\<lparr>requestMap := Map_delete rid (requestMap h)\<rparr> in
      case isResponseObject (data resp) of
        Inl e \<Rightarrow> (Inl e, h')
      | Inr True \<Rightarrow>
          (case get_prop (data resp) ''result'' of
             Inl e \<Rightarrow> (Inl e, h')
           | Inr r \<Rightarrow>
               if strict_equals r (JNum (Finite (- 1))) then
                 (case get_prop (data resp) ''data'' of
                    Inl e \<Rightarrow> (Inl e, h')
                  | Inr d \<Rightarrow> (Inr d, h'))
               else (Inl (HttpError request_error_message r), h'))
      | Inr False \<Rightarrow> (Inr (data resp), h'))"

text \<open>\<open>err.response?.statusText || err.message\<close>\<close>

fun error_text :: "thrown \<Rightarrow> string" where
  "error_text (AxiosError m None) = m"
| "error_text (AxiosError m (Some r)) = (if statusText r \<noteq> [] then statusText r else m)"
| "error_text e = []"

text \<open>The \<open>catch\<close> callback.\<close>

definition request_catch :: "nat \<Rightarrow> thrown \<Rightarrow> http \<Rightarrow> (thrown + jsval) \<times> http" where
  "request_catch rid err h =
     (let h' = h\<lparr>requestMap := Map_delete rid (requestMap h)\<rparr> in
      if isCancel err then (Inl (HttpError cancelled_message JUndefined), h')
      else if isAxiosError err then (Inl (HttpError (error_text err) JUndefined), h')
      else (Inl err, h'))"

text \<open>
  The chain \<open>http.request(...).then(f).catch(g)\<close>: a fulfilled transport promise runs
  \<open>f\<close>, and a rejection or throw of \<open>f\<close> runs \<open>g\<close>; a rejected transport promise skips
  \<open>f\<close> and runs \<open>g\<close>. The result is how the promise that \<open>request\<close> returned settles
  (\<open>Inl\<close> rejected, \<open>Inr\<close> resolved).
\<close>

definition request_settle ::
  "nat \<Rightarrow> thrown + axios_response \<Rightarrow> http \<Rightarrow> (thrown + jsval) \<times> http" where
  "request_settle rid outcome h =
     (case outcome of
        Inr resp \<Rightarrow>
          (case request_then rid resp h of
             (Inr v, h') \<Rightarrow> (Inr v, h')
           | (Inl e, h') \<Rightarrow> request_catch rid e h')
      | Inl err \<Rightarrow> request_catch rid err h)"

definition settle :: "nat \<Rightarrow> thrown + axios_response \<Rightarrow> world \<Rightarrow> (thrown + jsval) \<times> world" where
  "settle rid outcome w =
     (let (res, h') = request_settle rid outcome (client w) in (res, w\<lparr>client := h'\<rparr>))"

section \<open>Runs of a client\<close>

text \<open>
  JavaScript runs one callback at a time, so whatever the callers do concurrently, the
  client sees a sequence of events: a call of \<open>request\<close> (its synchronous part), the
  settlement of a pending request by the transport (which runs the callbacks of the
  chain), or a call of \<open>dispose\<close>. \<open>assigned_ids\<close> lists the identifiers the calls of
  \<open>request\<close> take, in call order, whether or not the call goes on to throw.
\<close>

datatype event =
    Request string string js_object
  | Settle nat "thrown + axios_response"
  | Dispose "string option"

fun exec :: "event \<Rightarrow> world \<Rightarrow> world" where
  "exec (Request meth url options) w = snd (request meth url options w)"
| "exec (Settle rid outcome) w = snd (settle rid outcome w)"
| "exec (Dispose msg) w = dispose msg w"

fun assigned_ids :: "event list \<Rightarrow> world \<Rightarrow> nat list" where
  "assigned_ids [] w = []"
| "assigned_ids (Request meth url options # es) w =
     requestID (fst (request meth url options w)) #
       assigned_ids es (exec (Request meth url options) w)"
| "assigned_ids (e # es) w = assigned_ids es (exec e w)"

fun is_Request :: "event \<Rightarrow> bool" where
  "is_Request (Request meth url options) = True"
| "is_Request e = False"

definition request_count :: "event list \<Rightarrow> nat" where
  "request_count es = length (filter is_Request es)"

text \<open>
  What holds of the registry of every world a run reaches: the identifiers are distinct
  (it is a \<open>Map\<close>), the sources are distinct and were all allocated.
\<close>

definition registry_ok :: "world \<Rightarrow> bool" where
  "registry_ok w =
     (distinct (map fst (requestMap (client w))) \<and>
      distinct (map snd (requestMap (client w))) \<and>
      list_all (\<lambda>(rid, source). source < next_source w) (requestMap (client w)))"

text \<open>
  Modelled from the spec: the transport, which is not part of the repository, rejects a
  pending request with the \<open>Cancel\<close> object of its token once the token's source has
  been cancelled ("calling dispose signals cancellation to the underlying transport for
  every currently-registered handle"); the first call of \<open>cancel\<close> on a source fixes
  the reason.
\<close>

definition transport_cancellation :: "world \<Rightarrow> pending \<Rightarrow> thrown option" where
  "transport_cancellation w p =
     (case config p ''cancelToken'' of
        Some (JCancelToken source) \<Rightarrow>
          (case map_of (cancel_calls w) source of
             Some msg \<Rightarrow> Some (Cancel msg)
           | None \<Rightarrow> None)
      | _ \<Rightarrow> None)"

section \<open>useApi\<close>

text \<open>
  The fifth element of the array \<open>useApi\<close> returns is
  \<open>useCallback(() => client.dispose.bind(client), [client])\<close>: \<open>useCallback\<close> hands the
  arrow function back, and the arrow function takes no parameter and returns the bound
  method. A call \<open>cancel(message)\<close> therefore gives back a function and the world it
  was called in.
\<close>

definition useApi_cancel :: "string option \<Rightarrow> world \<Rightarrow> (string option \<Rightarrow> world \<Rightarrow> world) \<times> world" where
  "useApi_cancel msg w = (dispose, w)"

section \<open>Basic facts\<close>

subsection \<open>The registry operations\<close>

lemma Map_delete_absent: "k \<notin> fst ` set (Map_delete k m)"
  by (auto simp: Map_delete_def)

lemma Map_delete_idem: "Map_delete k (Map_delete k m) = Map_delete k m"
  by (induction m) (auto simp: Map_delete_def)

lemma map_of_Map_set: "map_of (Map_set k v m) = (map_of m)(k \<mapsto> v)"
  by (induction m) (auto simp: fun_eq_iff)

lemma map_fst_Map_set:
  "map fst (Map_set k v m) = (if k \<in> set (map fst m) then map fst m else map fst m @ [k])"
  by (induction m) (force split: if_splits)+

lemma distinct_fst_Map_set: "distinct (map fst m) \<Longrightarrow> distinct (map fst (Map_set k v m))"
  by (simp add: map_fst_Map_set)

lemma set_snd_Map_set: "set (map snd (Map_set k v m)) \<subseteq> insert v (set (map snd m))"
  by (induction m) (force split: if_splits)+

lemma distinct_snd_Map_set:
  "distinct (map snd m) \<Longrightarrow> v \<notin> set (map snd m) \<Longrightarrow> distinct (map snd (Map_set k v m))"
proof (induction m)
  case Nil
  then show ?case by simp
next
  case (Cons e m)
  obtain k' v' where e: "e = (k', v')" by (cases e)
  show ?case
  proof (cases "k' = k")
    case True
    with Cons.prems e show ?thesis by simp
  next
    case False
    from Cons.prems e have "v' \<noteq> v" and "v' \<notin> set (map snd m)" by auto
    with set_snd_Map_set [of k v m] have "v' \<notin> set (map snd (Map_set k v m))" by blast
    moreover from Cons e have "distinct (map snd (Map_set k v m))" by simp
    ultimately show ?thesis using False e by simp
  qed
qed

lemma list_all_Map_set:
  "list_all P m \<Longrightarrow> P (k, v) \<Longrightarrow> list_all P (Map_set k v m)"
  by (induction m) auto

subsection \<open>The type guard\<close>

lemma isResponseObject_True_iff:
  "isResponseObject b = Inr True \<longleftrightarrow>
     (\<exists>kvs r. b = JObj kvs \<and> map_of kvs ''result'' = Some (JNum r))"
  by (cases b) (auto simp: isResponseObject_def split: option.splits elim: typeof.elims)

lemma isResponseObject_False_iff:
  "isResponseObject b = Inr False \<longleftrightarrow>
     b \<noteq> JNull \<and> (\<forall>kvs r. b = JObj kvs \<longrightarrow> map_of kvs ''result'' \<noteq> Some (JNum r))"
  by (cases b) (auto simp: isResponseObject_def split: option.splits elim: typeof.elims)

subsection \<open>What the callbacks do to the client\<close>

lemma request_then_registry:
  "requestMap (snd (request_then rid resp h)) = Map_delete rid (requestMap h)"
  by (simp add: request_then_def Let_def split: sum.splits bool.splits)

lemma request_catch_registry:
  "requestMap (snd (request_catch rid err h)) = Map_delete rid (requestMap h)"
  by (simp add: request_catch_def Let_def)

lemma request_then_currentId: "currentId (snd (request_then rid resp h)) = currentId h"
  by (simp add: request_then_def Let_def split: sum.splits bool.splits)

lemma request_catch_currentId: "currentId (snd (request_catch rid err h)) = currentId h"
  by (simp add: request_catch_def Let_def)

lemma request_settle_registry:
  "requestMap (snd (request_settle rid outcome h)) = Map_delete rid (requestMap h)"
proof (cases outcome)
  case (Inl err)
  then show ?thesis by (simp add: request_settle_def request_catch_registry)
next
  case (Inr resp)
  obtain res h' where t: "request_then rid resp h = (res, h')" by (cases "request_then rid resp h")
  then have h': "requestMap h' = Map_delete rid (requestMap h)"
    using request_then_registry [of rid resp h] by simp
  show ?thesis
  proof (cases res)
    case (Inl e)
    with Inr t h' show ?thesis
      by (simp add: request_settle_def request_catch_registry Map_delete_idem)
  next
    case (Inr v)
    with \<open>outcome = Inr resp\<close> t h' show ?thesis
      by (simp add: request_settle_def)
  qed
qed

lemma request_settle_currentId:
  "currentId (snd (request_settle rid outcome h)) = currentId h"
proof (cases outcome)
  case (Inl err)
  then show ?thesis by (simp add: request_settle_def request_catch_currentId)
next
  case (Inr resp)
  obtain res h' where t: "request_then rid resp h = (res, h')" by (cases "request_then rid resp h")
  then have h': "currentId h' = currentId h"
    using request_then_currentId [of rid resp h] by simp
  show ?thesis
  proof (cases res)
    case (Inl e)
    with Inr t h' show ?thesis
      by (simp add: request_settle_def request_catch_currentId)
  next
    case (Inr v)
    with \<open>outcome = Inr resp\<close> t h' show ?thesis
      by (simp add: request_settle_def)
  qed
qed

lemma settle_client:
  "client (snd (settle rid outcome w)) = snd (request_settle rid outcome (client w))"
  by (simp add: settle_def split: prod.splits)

lemma settle_frame:
  "next_source (snd (settle rid outcome w)) = next_source w"
  "cancel_calls (snd (settle rid outcome w)) = cancel_calls w"
  by (simp_all add: settle_def split: prod.splits)

subsection \<open>What the synchronous part does\<close>

lemma request_client_supplied:
  "truthy (own_prop options ''cancelToken'') \<Longrightarrow>
   snd (request meth url options w) =
     w\<lparr>client := (client w)\<lparr>currentId := js_increment (currentId (client w))\<rparr>\<rparr>"
  by (simp add: request_def Let_def)

lemma request_client_fresh:
  "\<not> truthy (own_prop options ''cancelToken'') \<Longrightarrow>
   snd (request meth url options w) =
     w\<lparr>client := (client w)\<lparr>currentId := js_increment (currentId (client w)),
          requestMap := Map_set (js_increment (currentId (client w))) (next_source w)
                          (requestMap (client w))\<rparr>,
       next_source := Suc (next_source w)\<rparr>"
  by (simp add: request_def Let_def)

lemma request_requestID:
  "requestID (fst (request meth url options w)) = js_increment (currentId (client w))"
  by (simp add: request_def Let_def split: prod.splits)

lemma request_currentId:
  "currentId (client (snd (request meth url options w))) = js_increment (currentId (client w))"
  by (cases "truthy (own_prop options ''cancelToken'')")
     (simp_all add: request_client_supplied request_client_fresh)

lemma request_returned:
  "returned (fst (request meth url options w)) =
     (if assignable options ''cancelToken''
      then Inr \<lparr>config = request_defaults meth url ++
                  (props options)(''cancelToken'' \<mapsto>
                    (if truthy (own_prop options ''cancelToken'')
                     then own_prop options ''cancelToken''
                     else JCancelToken (next_source w))),
               options_after = options\<lparr>props := (props options)(''cancelToken'' \<mapsto>
                    (if truthy (own_prop options ''cancelToken'')
                     then own_prop options ''cancelToken''
                     else JCancelToken (next_source w)))\<rparr>\<rparr>
      else Inl TypeError)"
  by (simp add: request_def set_prop_def Let_def split: prod.splits)

subsection \<open>dispose\<close>

lemma dispose_calls:
  "fold (\<lambda>(k, v). source_cancel msg v) m w =
     w\<lparr>cancel_calls := cancel_calls w @ map (\<lambda>(rid, source). (source, msg)) m\<rparr>"
  by (induction m arbitrary: w) (auto simp: source_cancel_def)

lemma dispose_eq:
  "dispose msg w =
     w\<lparr>cancel_calls := cancel_calls w @ map (\<lambda>(rid, source). (source, msg)) (requestMap (client w))\<rparr>"
  by (simp add: dispose_def Map_forEach_def dispose_calls)

lemma calls_on_source:
  "distinct (map snd m) \<Longrightarrow> (rid, source) \<in> set m \<Longrightarrow>
   length (filter (\<lambda>c. fst c = source) (map (\<lambda>(rid, source). (source, msg)) m)) = 1"
proof (induction m)
  case Nil
  then show ?case by simp
next
  case (Cons e m)
  obtain k v where e: "e = (k, v)" by (cases e)
  have none: "filter (\<lambda>c. fst c = v) (map (\<lambda>(rid, source). (source, msg)) m) = []"
    using Cons.prems(1) e by (force simp: filter_empty_conv)
  show ?case
  proof (cases "v = source")
    case True
    with none e show ?thesis by simp
  next
    case False
    with Cons e show ?thesis by auto
  qed
qed

lemma map_of_calls:
  "(rid, source) \<in> set m \<Longrightarrow>
   \<exists>c. map_of (calls @ map (\<lambda>(rid, source). (source, msg)) m) source = Some c"
proof -
  assume "(rid, source) \<in> set m"
  then have "source \<in> fst ` set (calls @ map (\<lambda>(rid, source). (source, msg)) m)"
    by (force simp: image_iff)
  then show ?thesis
    by (metis domD dom_map_of_conv_image_fst)
qed

subsection \<open>The registry of a reachable world\<close>

lemma registry_ok_new_world: "registry_ok new_world"
  by (simp add: registry_ok_def new_world_def new_Http_def)

lemma registry_ok_request: 
  assumes "registry_ok w"
  shows "registry_ok (snd (request meth url options w))"
proof (cases "truthy (own_prop options ''cancelToken'')")
  case True
  with assms show ?thesis by (simp add: request_client_supplied registry_ok_def)
next
  case False
  let ?m = "requestMap (client w)"
  from assms have d1: "distinct (map fst ?m)" and d2: "distinct (map snd ?m)"
    and b: "list_all (\<lambda>(rid, source). source < next_source w) ?m"
    by (simp_all add: registry_ok_def)
  from b have fresh: "next_source w \<notin> set (map snd ?m)"
    by (auto simp: list_all_iff)
  from b have b': "list_all (\<lambda>(rid, source). source < Suc (next_source w)) ?m"
    by (auto simp: list_all_iff)
  show ?thesis
    using False d1 d2 fresh b'
    by (simp add: request_client_fresh registry_ok_def distinct_fst_Map_set
        distinct_snd_Map_set list_all_Map_set)
qed

lemma registry_ok_settle:
  assumes "registry_ok w"
  shows "registry_ok (snd (settle rid outcome w))"
  using assms
  by (simp add: registry_ok_def settle_client request_settle_registry settle_frame
      Map_delete_def distinct_map_filter list_all_iff)

lemma registry_ok_dispose: "registry_ok w \<Longrightarrow> registry_ok (dispose msg w)"
  by (simp add: dispose_eq registry_ok_def)

lemma registry_ok_exec: "registry_ok w \<Longrightarrow> registry_ok (exec e w)"
  by (cases e) (simp_all add: registry_ok_request registry_ok_settle registry_ok_dispose)

lemma registry_ok_run: "registry_ok w \<Longrightarrow> registry_ok (fold exec es w)"
  by (induction es arbitrary: w) (simp_all add: registry_ok_exec)

subsection \<open>Identifiers along a run\<close>

lemma exec_currentId:
  "currentId (client (exec e w)) =
     (if is_Request e then js_increment (currentId (client w)) else currentId (client w))"
  by (cases e) (simp_all add: request_currentId settle_client request_settle_currentId dispose_eq)

lemma assigned_ids_bounds:
  "currentId (client w) + request_count es \<le> 2 ^ 53 \<Longrightarrow>
   sorted_wrt (<) (assigned_ids es w) \<and>
   (\<forall>i \<in> set (assigned_ids es w). currentId (client w) < i)"
proof (induction es arbitrary: w)
  case Nil
  then show ?case by simp
next
  case (Cons e es)
  show ?case
  proof (cases "is_Request e")
    case True
    then obtain meth url options where e: "e = Request meth url options"
      by (cases e) simp_all
    from Cons.prems e have lt: "currentId (client w) < 2 ^ 53"
      and nx: "currentId (client (exec e w)) + request_count es \<le> 2 ^ 53"
      by (simp_all add: request_count_def request_currentId js_increment_def)
    from Cons.IH [OF nx] lt e show ?thesis
      by (auto simp: request_requestID request_currentId js_increment_def)
  next
    case False
    then have same: "currentId (client (exec e w)) = currentId (client w)"
      by (simp add: exec_currentId)
    from False have ids: "assigned_ids (e # es) w = assigned_ids es (exec e w)"
      by (cases e) simp_all
    from False Cons.prems have "currentId (client (exec e w)) + request_count es \<le> 2 ^ 53"
      by (simp add: request_count_def same)
    from Cons.IH [OF this] show ?thesis
      unfolding ids same by blast
  qed
qed

lemma length_assigned_ids: "length (assigned_ids es w) = request_count es"
  by (induction es w rule: assigned_ids.induct) (simp_all add: request_count_def)

lemma assigned_ids_replicate:
  "currentId (client w) \<le> 2 ^ 53 \<Longrightarrow>
   assigned_ids (replicate n (Request meth url options)) w =
     map (\<lambda>k. min (currentId (client w) + Suc k) (2 ^ 53)) [0..<n]"
proof (induction n arbitrary: w)
  case 0
  then show ?case by simp
next
  case (Suc n)
  let ?w' = "exec (Request meth url options) w"
  have c': "currentId (client ?w') = js_increment (currentId (client w))"
    by (simp add: request_currentId)
  with Suc.prems have le: "currentId (client ?w') \<le> 2 ^ 53"
    by (simp add: js_increment_def)
  have step: "min (js_increment c + Suc k) (2 ^ 53) = min (c + Suc (Suc k)) (2 ^ 53)"
    if "c \<le> 2 ^ 53" for c k :: nat
    using that by (simp add: js_increment_def min_def)
  have shift: "map (\<lambda>k. min (currentId (client ?w') + Suc k) (2 ^ 53)) [0..<n] =
               map (\<lambda>k. min (currentId (client w) + Suc k) (2 ^ 53)) (map Suc [0..<n])"
    unfolding c' map_map comp_def using step [OF Suc.prems] by simp
  have "assigned_ids (replicate (Suc n) (Request meth url options)) w =
          js_increment (currentId (client w)) # assigned_ids (replicate n (Request meth url options)) ?w'"
    by (simp add: request_requestID)
  also have "\<dots> = js_increment (currentId (client w)) #
                   map (\<lambda>k. min (currentId (client w) + Suc k) (2 ^ 53)) (map Suc [0..<n])"
    by (simp only: Suc.IH [OF le] shift)
  also have "js_increment (currentId (client w)) = min (currentId (client w) + Suc 0) (2 ^ 53)"
    using Suc.prems by (simp add: js_increment_def)
  finally show ?case
    by (simp only: map_Suc_upt upt_conv_Cons [of 0 "Suc n"] list.map)
qed

lemma repeated_id:
  assumes "2 ^ 53 < n"
  shows "\<not> distinct (map (\<lambda>k. min (c + Suc k) ((2::nat) ^ 53)) [0..<n])"
proof
  let ?xs = "map (\<lambda>k. min (c + Suc k) ((2::nat) ^ 53)) [0..<n]"
  assume "distinct ?xs"
  moreover have "2 ^ 53 - 1 < length ?xs" "2 ^ 53 < length ?xs" "(2::nat) ^ 53 - 1 \<noteq> 2 ^ 53"
    using assms by simp_all
  ultimately have "?xs ! (2 ^ 53 - 1) \<noteq> ?xs ! (2 ^ 53)"
    unfolding distinct_conv_nth by blast
  moreover have "?xs ! (2 ^ 53 - 1) = 2 ^ 53" "?xs ! (2 ^ 53) = 2 ^ 53"
    using assms by simp_all
  ultimately show False by simp
qed

lemma ids_repeat_after_many_requests:
  "2 ^ 53 < n \<Longrightarrow>
   \<not> distinct (assigned_ids (replicate n (Request meth url options)) new_world)"
proof -
  assume n: "2 ^ 53 < n"
  have "currentId (client new_world) \<le> 2 ^ 53"
    by (simp add: new_world_def new_Http_def)
  from assigned_ids_replicate [OF this, of n meth url options] repeated_id [OF n]
  show ?thesis by simp
qed

subsection \<open>Two requests in flight\<close>

lemma two_requests:
  "snd (request ''POST'' ''/b'' (object_literal Map.empty)
         (snd (request ''GET'' ''/a'' (object_literal Map.empty) new_world))) =
     \<lparr>client = \<lparr>currentId = 2, requestMap = [(1, 0), (2, 1)]\<rparr>,
      next_source = 2, cancel_calls = []\<rparr>"
  by (simp add: request_def Let_def new_world_def new_Http_def js_increment_def own_prop_def
      object_literal_def)

lemma one_request: "next_source (snd (request ''GET'' ''/a'' (object_literal Map.empty) new_world)) = 1"
  by (simp add: request_def Let_def new_world_def new_Http_def js_increment_def own_prop_def
      object_literal_def)

lemma two_requests_tokens:
  "returned (fst (request ''GET'' ''/a'' (object_literal Map.empty) new_world)) =
     Inr \<lparr>config = request_defaults ''GET'' ''/a'' ++ [''cancelToken'' \<mapsto> JCancelToken 0],
          options_after = object_literal [''cancelToken'' \<mapsto> JCancelToken 0]\<rparr>"
  "returned (fst (request ''POST'' ''/b'' (object_literal Map.empty)
       (snd (request ''GET'' ''/a'' (object_literal Map.empty) new_world)))) =
     Inr \<lparr>config = request_defaults ''POST'' ''/b'' ++ [''cancelToken'' \<mapsto> JCancelToken 1],
          options_after = object_literal [''cancelToken'' \<mapsto> JCancelToken 1]\<rparr>"
  unfolding request_returned one_request
  by (simp_all add: assignable_def own_prop_def object_literal_def new_world_def)

section \<open>Enveloped responses\<close>

text \<open>
  C1. A fulfilled transport promise whose body has the envelope shape (the type guard
  answers true, that is the body is an object with a numeric \<open>result\<close>) settles the
  promise of \<open>request\<close> as follows: with \<open>result\<close> equal to \<open>-1\<close> it resolves with the
  body's \<open>data\<close> property, and with any other number (\<open>NaN\<close> and the infinities too) it
  rejects with an \<open>HttpError\<close> whose code is that number and whose message is the fixed
  one.
\<close>

theorem request_envelope:
  assumes "isResponseObject (data resp) = Inr True"
  shows "\<exists>kvs r. data resp = JObj kvs \<and> map_of kvs ''result'' = Some (JNum r) \<and>
           fst (settle rid (Inr resp) w) =
             (if r = Finite (- 1)
              then Inr (case map_of kvs ''data'' of None \<Rightarrow> JUndefined | Some d \<Rightarrow> d)
              else Inl (HttpError request_error_message (JNum r)))"
proof -
  from assms obtain kvs r
    where b: "data resp = JObj kvs" and r: "map_of kvs ''result'' = Some (JNum r)"
    by (auto simp: isResponseObject_True_iff)
  have "fst (settle rid (Inr resp) w) =
          (if r = Finite (- 1)
           then Inr (case map_of kvs ''data'' of None \<Rightarrow> JUndefined | Some d \<Rightarrow> d)
           else Inl (HttpError request_error_message (JNum r)))"
    using assms b r
    by (simp add: settle_def request_settle_def request_then_def request_catch_def Let_def
        split: prod.splits)
  with b r show ?thesis by blast
qed

text \<open>
  The two bodies of the specification: \<open>{result: -1, data: "X"}\<close> resolves with \<open>"X"\<close>,
  and \<open>{result: 7, data: null}\<close> rejects with code 7.
\<close>

theorem request_envelope_witness:
  "isResponseObject (data \<lparr>status = 200, statusText = ''OK'',
       data = JObj [(''result'', JNum (Finite (- 1))), (''data'', JStr ''X'')]\<rparr>) = Inr True \<and>
   fst (settle 1 (Inr \<lparr>status = 200, statusText = ''OK'',
       data = JObj [(''result'', JNum (Finite (- 1))), (''data'', JStr ''X'')]\<rparr>) new_world)
     = Inr (JStr ''X'') \<and>
   isResponseObject (data \<lparr>status = 200, statusText = ''OK'',
       data = JObj [(''result'', JNum (Finite 7)), (''data'', JNull)]\<rparr>) = Inr True \<and>
   fst (settle 1 (Inr \<lparr>status = 200, statusText = ''OK'',
       data = JObj [(''result'', JNum (Finite 7)), (''data'', JNull)]\<rparr>) new_world)
     = Inl (HttpError request_error_message (JNum (Finite 7)))"
proof -
  let ?ok = "\<lparr>status = 200, statusText = ''OK'',
       data = JObj [(''result'', JNum (Finite (- 1))), (''data'', JStr ''X'')]\<rparr>"
  let ?bad = "\<lparr>status = 200, statusText = ''OK'',
       data = JObj [(''result'', JNum (Finite 7)), (''data'', JNull)]\<rparr>"
  have h1: "isResponseObject (data ?ok) = Inr True"
    by (simp add: isResponseObject_def)
  have h2: "isResponseObject (data ?bad) = Inr True"
    by (simp add: isResponseObject_def)
  from request_envelope [OF h1, of 1 new_world] request_envelope [OF h2, of 1 new_world] h1 h2
  show ?thesis by simp
qed

section \<open>Request identifiers\<close>

text \<open>
  C2 (as amended). Take any run of events of one client (calls of \<open>request\<close>,
  settlements and calls of \<open>dispose\<close>, in any order) during which the counter stays
  within the integers a double counts exactly, that is the counter before the run plus
  the number of calls of \<open>request\<close> in the run is at most \<open>2^53\<close>. Then every call gets
  an identifier, the identifiers are strictly increasing in call order, pairwise
  distinct (none is used twice), greater than zero and greater than the counter before
  the run.
\<close>

theorem request_ids_increasing:
  assumes "currentId (client w) + request_count es \<le> 2 ^ 53"
  shows "length (assigned_ids es w) = request_count es \<and>
         sorted_wrt (<) (assigned_ids es w) \<and>
         distinct (assigned_ids es w) \<and>
         (\<forall>i \<in> set (assigned_ids es w). 0 < i \<and> currentId (client w) < i)"
proof -
  from assigned_ids_bounds [OF assms]
  have s: "sorted_wrt (<) (assigned_ids es w)"
    and b: "\<forall>i \<in> set (assigned_ids es w). currentId (client w) < i"
    by simp_all
  from s have d: "distinct (assigned_ids es w)"
    by (simp add: strict_sorted_iff)
  from b have p: "\<forall>i \<in> set (assigned_ids es w). 0 < i \<and> currentId (client w) < i"
    by auto
  from length_assigned_ids [of es w] s d p show ?thesis by blast
qed

text \<open>
  A fresh client on which three requests are made, with a \<open>dispose\<close> and a settlement
  in between: the identifiers are 1, 2, 3.
\<close>

theorem request_ids_increasing_witness:
  "currentId (client new_world) +
     request_count [Request ''GET'' ''/a'' (object_literal Map.empty), Dispose None,
                    Request ''POST'' ''/b'' (object_literal Map.empty),
                    Settle 1 (Inl (Cancel None)), Request ''GET'' ''/c'' (object_literal Map.empty)] \<le> 2 ^ 53 \<and>
   assigned_ids [Request ''GET'' ''/a'' (object_literal Map.empty), Dispose None,
                 Request ''POST'' ''/b'' (object_literal Map.empty),
                 Settle 1 (Inl (Cancel None)), Request ''GET'' ''/c'' (object_literal Map.empty)] new_world = [1, 2, 3] \<and>
   sorted_wrt (<) (assigned_ids [Request ''GET'' ''/a'' (object_literal Map.empty), Dispose None,
                 Request ''POST'' ''/b'' (object_literal Map.empty),
                 Settle 1 (Inl (Cancel None)), Request ''GET'' ''/c'' (object_literal Map.empty)] new_world) \<and>
   distinct (assigned_ids [Request ''GET'' ''/a'' (object_literal Map.empty), Dispose None,
                 Request ''POST'' ''/b'' (object_literal Map.empty),
                 Settle 1 (Inl (Cancel None)), Request ''GET'' ''/c'' (object_literal Map.empty)] new_world)"
proof -
  let ?es = "[Request ''GET'' ''/a'' (object_literal Map.empty), Dispose None,
                 Request ''POST'' ''/b'' (object_literal Map.empty),
                 Settle 1 (Inl (Cancel None)), Request ''GET'' ''/c'' (object_literal Map.empty)]"
  have h: "currentId (client new_world) + request_count ?es \<le> 2 ^ 53"
    by (simp add: new_world_def new_Http_def request_count_def)
  have v: "assigned_ids ?es new_world = [1, 2, 3]"
    by (simp add: request_requestID request_currentId settle_client request_settle_currentId
        dispose_eq js_increment_def new_world_def new_Http_def)
  from request_ids_increasing [OF h] h v show ?thesis by blast
qed

text \<open>
  Without the bound the identifiers are not distinct: on a fresh client the calls
  number \<open>2^53\<close> and \<open>2^53 + 1\<close> both get the identifier \<open>2^53\<close>, since the counter no
  longer moves.
\<close>

theorem request_ids_repeat:
  "\<not> distinct (assigned_ids (replicate (2 ^ 53 + 1) (Request ''GET'' ''/a'' (object_literal Map.empty))) new_world)"
  by (rule ids_repeat_after_many_requests) simp

section \<open>Settlement and the registry\<close>

text \<open>
  C3. However a request settles, its identifier is absent from the registry
  afterwards. Both callbacks start by deleting the entry, so each of them returns (or
  throws) in a client whose registry is the old one without the identifier; the chain
  of the two, for every outcome of the transport (a response with any body, a
  cancellation, a transport error, any other value), leaves the registry of the world
  without the identifier, and the settlement of the returned promise is computed after
  the deletion.
\<close>

theorem settled_request_unregistered:
  "requestMap (snd (request_then rid resp h)) = Map_delete rid (requestMap h) \<and>
   requestMap (snd (request_catch rid err h)) = Map_delete rid (requestMap h) \<and>
   requestMap (client (snd (settle rid outcome w))) = Map_delete rid (requestMap (client w)) \<and>
   rid \<notin> fst ` set (requestMap (client (snd (settle rid outcome w))))"
  by (simp add: request_then_registry request_catch_registry settle_client
      request_settle_registry Map_delete_absent)

section \<open>dispose\<close>

text \<open>
  C4. \<open>dispose(message)\<close> calls \<open>cancel(message)\<close> on the source of every entry of the
  registry, in the registry's order, one call for each entry, and makes no other call;
  it leaves the client (the counter and the registry) and the allocator as they are.
  In a reachable world the sources of the registry are distinct, so every source is
  cancelled exactly once. With an empty registry \<open>dispose\<close> changes nothing. For every
  request in flight that is in the registry with its own token, the transport answers
  the cancellation with a \<open>Cancel\<close> object, and the promise of the request rejects with
  the cancellation error, which carries no code.
\<close>

theorem dispose_cancels_registry:
  "cancel_calls (dispose msg w) =
     cancel_calls w @ map (\<lambda>(rid, source). (source, msg)) (requestMap (client w)) \<and>
   client (dispose msg w) = client w \<and>
   next_source (dispose msg w) = next_source w \<and>
   (registry_ok w \<longrightarrow>
      (\<forall>(rid, source) \<in> set (requestMap (client w)).
         length (filter (\<lambda>c. fst c = source)
           (drop (length (cancel_calls w)) (cancel_calls (dispose msg w)))) = 1)) \<and>
   (requestMap (client w) = [] \<longrightarrow> dispose msg w = w) \<and>
   (\<forall>rid source p.
      (rid, source) \<in> set (requestMap (client w)) \<and>
      config p ''cancelToken'' = Some (JCancelToken source) \<longrightarrow>
      (\<exists>m. transport_cancellation (dispose msg w) p = Some (Cancel m) \<and>
           fst (settle rid (Inl (Cancel m)) (dispose msg w)) =
             Inl (HttpError cancelled_message JUndefined)))"
proof -
  have calls: "cancel_calls (dispose msg w) =
     cancel_calls w @ map (\<lambda>(rid, source). (source, msg)) (requestMap (client w))"
    by (simp add: dispose_eq)
  have frame: "client (dispose msg w) = client w" "next_source (dispose msg w) = next_source w"
    by (simp_all add: dispose_eq)
  have new_calls: "drop (length (cancel_calls w)) (cancel_calls (dispose msg w)) =
      map (\<lambda>(rid, source). (source, msg)) (requestMap (client w))"
    by (simp add: calls)
  have once: "registry_ok w \<longrightarrow>
      (\<forall>(rid, source) \<in> set (requestMap (client w)).
         length (filter (\<lambda>c. fst c = source)
           (drop (length (cancel_calls w)) (cancel_calls (dispose msg w)))) = 1)"
    unfolding new_calls using calls_on_source [of "requestMap (client w)" _ _ msg]
    by (auto simp only: registry_ok_def)
  have noop: "requestMap (client w) = [] \<longrightarrow> dispose msg w = w"
    by (simp add: dispose_eq)
  have rej: "\<exists>m. transport_cancellation (dispose msg w) p = Some (Cancel m) \<and>
           fst (settle rid (Inl (Cancel m)) (dispose msg w)) =
             Inl (HttpError cancelled_message JUndefined)"
    if "(rid, source) \<in> set (requestMap (client w))"
      and "config p ''cancelToken'' = Some (JCancelToken source)" for rid source p
  proof -
    from map_of_calls [OF that(1), of "cancel_calls w" msg] obtain c
      where "map_of (cancel_calls (dispose msg w)) source = Some c"
      unfolding calls by blast
    with that(2) have "transport_cancellation (dispose msg w) p = Some (Cancel c)"
      by (simp add: transport_cancellation_def)
    moreover have "fst (settle rid (Inl (Cancel c)) (dispose msg w)) =
             Inl (HttpError cancelled_message JUndefined)"
      by (simp add: settle_def request_settle_def request_catch_def Let_def)
    ultimately show ?thesis by blast
  qed
  from calls frame once noop rej show ?thesis by blast
qed

text \<open>
  Two requests are in flight when \<open>dispose("reason")\<close> is called: both sources are
  cancelled once with that message, the registry is untouched by the call, both
  promises reject with the cancellation error, the two settlements empty the registry,
  and a second \<open>dispose\<close> changes nothing.
\<close>

theorem dispose_cancels_registry_witness:
  "(let p1 = \<lparr>config = request_defaults ''GET'' ''/a'' ++ [''cancelToken'' \<mapsto> JCancelToken 0],
              options_after = object_literal [''cancelToken'' \<mapsto> JCancelToken 0]\<rparr>;
        w1 = snd (request ''GET'' ''/a'' (object_literal Map.empty) new_world);
        p2 = \<lparr>config = request_defaults ''POST'' ''/b'' ++ [''cancelToken'' \<mapsto> JCancelToken 1],
              options_after = object_literal [''cancelToken'' \<mapsto> JCancelToken 1]\<rparr>;
        w2 = snd (request ''POST'' ''/b'' (object_literal Map.empty) w1);
        w3 = dispose (Some ''reason'') w2;
        w4 = snd (settle 1 (Inl (Cancel (Some ''reason''))) w3);
        w5 = snd (settle 2 (Inl (Cancel (Some ''reason''))) w4)
    in returned (fst (request ''GET'' ''/a'' (object_literal Map.empty) new_world)) = Inr p1 \<and>
       returned (fst (request ''POST'' ''/b'' (object_literal Map.empty) w1)) = Inr p2 \<and>
       registry_ok w2 \<and>
       requestMap (client w2) = [(1, 0), (2, 1)] \<and>
       cancel_calls w3 = [(0, Some ''reason''), (1, Some ''reason'')] \<and>
       length (filter (\<lambda>c. fst c = 0) (drop (length (cancel_calls w2)) (cancel_calls w3))) = 1 \<and>
       length (filter (\<lambda>c. fst c = 1) (drop (length (cancel_calls w2)) (cancel_calls w3))) = 1 \<and>
       requestMap (client w3) = [(1, 0), (2, 1)] \<and>
       transport_cancellation w3 p1 = Some (Cancel (Some ''reason'')) \<and>
       transport_cancellation w3 p2 = Some (Cancel (Some ''reason'')) \<and>
       fst (settle 1 (Inl (Cancel (Some ''reason''))) w3) =
         Inl (HttpError cancelled_message JUndefined) \<and>
       fst (settle 2 (Inl (Cancel (Some ''reason''))) w4) =
         Inl (HttpError cancelled_message JUndefined) \<and>
       requestMap (client w5) = [] \<and>
       dispose (Some ''again'') w5 = w5)"
proof -
  let ?w1 = "snd (request ''GET'' ''/a'' (object_literal Map.empty) new_world)"
  let ?p1 = "\<lparr>config = request_defaults ''GET'' ''/a'' ++ [''cancelToken'' \<mapsto> JCancelToken 0],
              options_after = object_literal [''cancelToken'' \<mapsto> JCancelToken 0]\<rparr>"
  let ?p2 = "\<lparr>config = request_defaults ''POST'' ''/b'' ++ [''cancelToken'' \<mapsto> JCancelToken 1],
              options_after = object_literal [''cancelToken'' \<mapsto> JCancelToken 1]\<rparr>"
  let ?w2 = "snd (request ''POST'' ''/b'' (object_literal Map.empty) ?w1)"
  let ?w3 = "dispose (Some ''reason'') ?w2"
  let ?w4 = "snd (settle 1 (Inl (Cancel (Some ''reason''))) ?w3)"
  let ?w5 = "snd (settle 2 (Inl (Cancel (Some ''reason''))) ?w4)"
  note d2 = dispose_cancels_registry [of "Some ''reason''" ?w2]
  note d5 = dispose_cancels_registry [of "Some ''again''" ?w5]
  have r1: "returned (fst (request ''GET'' ''/a'' (object_literal Map.empty) new_world)) = Inr ?p1"
    by (rule two_requests_tokens)
  have r2: "returned (fst (request ''POST'' ''/b'' (object_literal Map.empty) ?w1)) = Inr ?p2"
    by (rule two_requests_tokens)
  have ok: "registry_ok ?w2"
    by (simp add: two_requests registry_ok_def)
  have reg: "requestMap (client ?w2) = [(1, 0), (2, 1)]"
    by (simp add: two_requests)
  from d2 have calls: "cancel_calls ?w3 = [(0, Some ''reason''), (1, Some ''reason'')]"
    by (simp add: two_requests)
  from d2 ok have "\<forall>(rid, source) \<in> set (requestMap (client ?w2)).
         length (filter (\<lambda>c. fst c = source)
           (drop (length (cancel_calls ?w2)) (cancel_calls ?w3))) = 1"
    by blast
  then have once:
    "length (filter (\<lambda>c. fst c = 0) (drop (length (cancel_calls ?w2)) (cancel_calls ?w3))) = 1"
    "length (filter (\<lambda>c. fst c = 1) (drop (length (cancel_calls ?w2)) (cancel_calls ?w3))) = 1"
    unfolding reg by simp_all
  from d2 have reg3: "requestMap (client ?w3) = [(1, 0), (2, 1)]"
    by (simp add: two_requests)
  have t1: "transport_cancellation ?w3 ?p1 = Some (Cancel (Some ''reason''))"
    by (simp add: transport_cancellation_def calls)
  have t2: "transport_cancellation ?w3 ?p2 = Some (Cancel (Some ''reason''))"
    by (simp add: transport_cancellation_def calls)
  have s1: "fst (settle 1 (Inl (Cancel (Some ''reason''))) ?w3) =
         Inl (HttpError cancelled_message JUndefined)"
    by (simp add: settle_def request_settle_def request_catch_def Let_def)
  have s2: "fst (settle 2 (Inl (Cancel (Some ''reason''))) ?w4) =
         Inl (HttpError cancelled_message JUndefined)"
    by (simp add: settle_def request_settle_def request_catch_def Let_def)
  have reg5: "requestMap (client ?w5) = []"
    by (simp add: settle_client request_settle_registry reg3 Map_delete_def)
  with d5 have noop: "dispose (Some ''again'') ?w5 = ?w5"
    by blast
  from r1 r2 ok reg calls once reg3 t1 t2 s1 s2 reg5 noop show ?thesis
    unfolding Let_def by blast
qed

section \<open>Caller-supplied cancellation tokens\<close>

text \<open>
  C5. When the \<open>options\<close> of a call already hold a cancellation token (a truthy
  \<open>cancelToken\<close>), the call creates no source and leaves the registry as it is, and the
  transport gets the caller's token. Otherwise, and only then, the call allocates a new
  source, registers it under the new identifier and hands its token to the transport.
  No call of \<open>request\<close> cancels anything. This holds of every \<open>options\<close> object; the
  transport gets nothing only when the assignment to \<open>options.cancelToken\<close> cannot be
  carried out and the call throws, and the registry is as described then too.
\<close>

theorem request_registers_token:
  "(if truthy (own_prop options ''cancelToken'')
    then requestMap (client (snd (request meth url options w))) = requestMap (client w) \<and>
         next_source (snd (request meth url options w)) = next_source w \<and>
         cancel_calls (snd (request meth url options w)) = cancel_calls w \<and>
         (case returned (fst (request meth url options w)) of
            Inr p \<Rightarrow> config p ''cancelToken'' = Some (own_prop options ''cancelToken'')
          | Inl e \<Rightarrow> \<not> assignable options ''cancelToken'')
    else requestMap (client (snd (request meth url options w))) =
           Map_set (requestID (fst (request meth url options w))) (next_source w)
             (requestMap (client w)) \<and>
         map_of (requestMap (client (snd (request meth url options w))))
           (requestID (fst (request meth url options w))) = Some (next_source w) \<and>
         next_source (snd (request meth url options w)) = Suc (next_source w) \<and>
         cancel_calls (snd (request meth url options w)) = cancel_calls w \<and>
         (case returned (fst (request meth url options w)) of
            Inr p \<Rightarrow> config p ''cancelToken'' = Some (JCancelToken (next_source w))
          | Inl e \<Rightarrow> \<not> assignable options ''cancelToken''))"
  by (simp add: request_client_supplied request_client_fresh request_requestID request_returned
      map_of_Map_set)

section \<open>Bodies without the envelope shape\<close>

text \<open>
  A body for which the type guard answers false resolves the promise unchanged. The
  guard answers false exactly for the bodies that are neither \<open>null\<close> nor an object with
  a numeric \<open>result\<close>; the string \<open>"raw"\<close> is one of them.
\<close>

lemma raw_body_passed_through:
  "isResponseObject (data resp) = Inr False \<Longrightarrow>
   fst (settle rid (Inr resp) w) = Inr (data resp)"
  by (simp add: settle_def request_settle_def request_then_def Let_def)

lemma raw_string_passed_through:
  "fst (settle rid (Inr \<lparr>status = 200, statusText = ''OK'', data = JStr ''raw''\<rparr>) w) =
     Inr (JStr ''raw'')"
  by (simp add: raw_body_passed_through isResponseObject_def)

text \<open>
  C6. The claim that every body without the envelope shape, \<open>null\<close> included, resolves
  the promise unchanged does not hold of the code at \<open>null\<close>: a request made on a fresh
  client returns its promise, and answered with the body \<open>null\<close> the promise rejects with
  a \<open>TypeError\<close> instead of resolving with \<open>null\<close>.
\<close>

theorem raw_null_body_not_passed_through:
  "(\<exists>p. returned (fst (request ''GET'' ''/list'' (object_literal Map.empty) new_world)) = Inr p) \<and>
   fst (settle (requestID (fst (request ''GET'' ''/list'' (object_literal Map.empty) new_world)))
         (Inr \<lparr>status = 200, statusText = ''OK'', data = JNull\<rparr>)
         (snd (request ''GET'' ''/list'' (object_literal Map.empty) new_world)))
     = Inl TypeError"
  by (simp add: settle_def request_settle_def request_then_def request_catch_def
      isResponseObject_def Let_def request_returned assignable_def object_literal_def)

section \<open>Transport failures\<close>




section \<open>The dispatched configuration\<close>

text \<open>
  C8. Whenever a call of \<open>request\<close> reaches the transport, the configuration handed to
  it is the defaults (the given method, the given url, a timeout of 60000 milliseconds)
  overridden by the properties of the \<open>options\<close> object, which at that moment holds the
  cancellation token. So every property the caller supplied, other than the token, is
  dispatched as supplied, every other property has its default, the token is the
  caller's when there is one and the new one otherwise, and a caller that supplies no
  \<open>timeout\<close> gets 60000. A call reaches the transport unless the assignment to
  \<open>options.cancelToken\<close> cannot be carried out.
\<close>

theorem request_config_merge:
  "(case returned (fst (request meth url options w)) of
      Inl e \<Rightarrow> \<not> assignable options ''cancelToken''
    | Inr p \<Rightarrow>
        config p = request_defaults meth url ++ props (options_after p) \<and>
        (\<forall>k. k \<noteq> ''cancelToken'' \<longrightarrow>
           config p k =
             (case props options k of Some v \<Rightarrow> Some v | None \<Rightarrow> request_defaults meth url k)) \<and>
        config p ''cancelToken'' =
          Some (if truthy (own_prop options ''cancelToken'') then own_prop options ''cancelToken''
                else JCancelToken (next_source w)) \<and>
        (props options ''timeout'' = None \<longrightarrow>
           config p ''timeout'' = Some (JNum (Finite 60000)))) \<and>
   request_defaults meth url ''method'' = Some (JStr meth) \<and>
   request_defaults meth url ''url'' = Some (JStr url) \<and>
   request_defaults meth url ''timeout'' = Some (JNum (Finite 60000))"
  by (simp add: request_returned request_defaults_def map_add_def split: option.splits)

text \<open>
  A call without options is dispatched with the timeout 60000; a call with a timeout
  of 5000 and headers is dispatched with both.
\<close>

theorem request_config_merge_witness:
  "''headers'' \<noteq> ''cancelToken'' \<and> ''timeout'' \<noteq> ''cancelToken'' \<and>
   props (object_literal Map.empty) ''timeout'' = None \<and>
   (\<exists>p. returned (fst (request ''GET'' ''/list'' (object_literal Map.empty) new_world)) = Inr p \<and>
        config p ''timeout'' = Some (JNum (Finite 60000))) \<and>
   (\<exists>p. returned (fst (request ''GET'' ''/list''
           (object_literal [''timeout'' \<mapsto> JNum (Finite 5000), ''headers'' \<mapsto> JObj []])
           new_world)) = Inr p \<and>
        config p ''timeout'' = Some (JNum (Finite 5000)) \<and>
        config p ''headers'' = Some (JObj []))"
proof -
  let ?none = "object_literal Map.empty"
  let ?opts = "object_literal [''timeout'' \<mapsto> JNum (Finite 5000), ''headers'' \<mapsto> JObj []]"
  note none = request_config_merge
    [where meth = "''GET''" and url = "''/list''" and options = ?none and w = new_world]
  note some = request_config_merge
    [where meth = "''GET''" and url = "''/list''" and options = ?opts and w = new_world]
  have n1: "''headers'' \<noteq> ''cancelToken''" and n2: "''timeout'' \<noteq> ''cancelToken''"
    by simp_all
  have e: "props ?none ''timeout'' = None" by (simp add: object_literal_def)
  have w1: "assignable ?none ''cancelToken''" and w2: "assignable ?opts ''cancelToken''"
    by (simp_all add: assignable_def object_literal_def)
  from none w1 obtain p where p: "returned (fst (request ''GET'' ''/list'' ?none new_world)) = Inr p"
    by (cases "returned (fst (request ''GET'' ''/list'' ?none new_world))") auto
  from none [unfolded p sum.case] e
  have a: "config p ''timeout'' = Some (JNum (Finite 60000))"
    by blast
  from some w2 obtain q where q: "returned (fst (request ''GET'' ''/list'' ?opts new_world)) = Inr q"
    by (cases "returned (fst (request ''GET'' ''/list'' ?opts new_world))") auto
  from some [unfolded q sum.case]
  have all: "\<forall>k. k \<noteq> ''cancelToken'' \<longrightarrow>
      config q k =
        (case props ?opts k of Some v \<Rightarrow> Some v | None \<Rightarrow> request_defaults ''GET'' ''/list'' k)"
    by blast
  from all n2 have b: "config q ''timeout'' = Some (JNum (Finite 5000))"
    by (simp add: object_literal_def)
  from all n1 have c: "config q ''headers'' = Some (JObj [])"
    by (simp add: object_literal_def)
  from n1 n2 e p a q b c show ?thesis by blast
qed

section \<open>The body null\<close>

text \<open>
  C9. \<open>typeof null\<close> is \<open>"object"\<close>, so the type guard reads \<open>result\<close> from \<open>null\<close> and
  throws a \<open>TypeError\<close>. A response whose body is \<open>null\<close> therefore rejects the promise
  of \<open>request\<close> with that \<open>TypeError\<close>, unchanged, and the entry of the request is removed
  from the registry all the same; nothing else of the world changes.
\<close>

theorem null_body_rejects:
  "typeof JNull = TyObject \<and>
   isResponseObject JNull = Inl TypeError \<and>
   settle rid (Inr (resp\<lparr>data := JNull\<rparr>)) w =
     (Inl TypeError,
      w\<lparr>client := (client w)\<lparr>requestMap := Map_delete rid (requestMap (client w))\<rparr>\<rparr>)"
  by (simp add: settle_def request_settle_def request_then_def request_catch_def
      isResponseObject_def Let_def Map_delete_idem)

section \<open>The cancel callback of useApi\<close>

text \<open>
  C10. A call of the callback that \<open>useApi\<close> returns as its fifth element, with any
  message, leaves the world as it is: it returns the bound \<open>dispose\<close> and does not call
  it. No source is cancelled and the registry is unchanged; whenever a request is
  registered, the world after the call differs from the one \<open>dispose\<close> would have left.
\<close>

theorem cancel_callback_no_effect:
  "snd (useApi_cancel msg w) = w \<and>
   fst (useApi_cancel msg w) = dispose \<and>
   (requestMap (client w) \<noteq> [] \<longrightarrow> snd (useApi_cancel msg w) \<noteq> dispose msg w)"
proof -
  have "requestMap (client w) \<noteq> [] \<Longrightarrow> dispose msg w \<noteq> w"
  proof
    assume ne: "requestMap (client w) \<noteq> []" and eq: "dispose msg w = w"
    have "length (cancel_calls (dispose msg w)) = length (cancel_calls w) + length (requestMap (client w))"
      by (simp add: dispose_def Map_forEach_def dispose_calls)
    with eq ne show False by simp
  qed
  then show ?thesis by (auto simp: useApi_cancel_def)
qed

text \<open>With one request in flight, the callback cancels nothing, and \<open>dispose\<close> would.\<close>

theorem cancel_callback_no_effect_witness:
  "requestMap (client (snd (request ''GET'' ''/a'' (object_literal Map.empty) new_world))) \<noteq> [] \<and>
   snd (useApi_cancel (Some ''stop'') (snd (request ''GET'' ''/a'' (object_literal Map.empty) new_world))) =
     snd (request ''GET'' ''/a'' (object_literal Map.empty) new_world) \<and>
   snd (useApi_cancel (Some ''stop'') (snd (request ''GET'' ''/a'' (object_literal Map.empty) new_world))) \<noteq>
     dispose (Some ''stop'') (snd (request ''GET'' ''/a'' (object_literal Map.empty) new_world))"
proof -
  let ?w = "snd (request ''GET'' ''/a'' (object_literal Map.empty) new_world)"
  have ne: "requestMap (client ?w) \<noteq> []"
    by (simp add: request_def Let_def new_world_def new_Http_def js_increment_def own_prop_def
        object_literal_def)
  from cancel_callback_no_effect [of "Some ''stop''" ?w] ne show ?thesis
    by blast
qed

end
